theory Spec2Isabelle
  imports Main "HOL-Library.Sublist"
begin

section \<open>Python values used by task1.py\<close>

text \<open>
  A Python \<open>str\<close> is a sequence of Unicode code points, and \<open>len\<close> counts code points.
  A string is therefore a list of code points, each a natural number; an ASCII literal of
  the source is written through \<open>ascii\<close>, and the Ukrainian literals are given by their
  code points.
\<close>

type_synonym pystr = "nat list"

definition ascii :: "string \<Rightarrow> pystr" where
  "ascii s = map of_char s"

text \<open>
  \<open>str.isdigit()\<close> is true when the string has at least one character and every character
  is a digit, that is, has the Unicode property Numeric_Type=Digit or Numeric_Type=Decimal.
  \<open>digit_ranges\<close> lists the code points with that property (Unicode 14.0.0, the database
  of CPython 3.11) as inclusive ranges. The first range is the ASCII digits; the next two
  are the superscripts U+00B2, U+00B3 and U+00B9. Other versions of the database differ
  only in rows for scripts added later, beyond U+0660.
\<close>

definition digit_ranges :: "(nat \<times> nat) list" where
  "digit_ranges =
    [(48, 57), (178, 179), (185, 185), (1632, 1641), (1776, 1785), (1984, 1993),
     (2406, 2415), (2534, 2543), (2662, 2671), (2790, 2799), (2918, 2927), (3046, 3055),
     (3174, 3183), (3302, 3311), (3430, 3439), (3558, 3567), (3664, 3673), (3792, 3801),
     (3872, 3881), (4160, 4169), (4240, 4249), (4969, 4977), (6112, 6121), (6160, 6169),
     (6470, 6479), (6608, 6618), (6784, 6793), (6800, 6809), (6992, 7001), (7088, 7097),
     (7232, 7241), (7248, 7257), (8304, 8304), (8308, 8313), (8320, 8329), (9312, 9320),
     (9332, 9340), (9352, 9360), (9450, 9450), (9461, 9469), (9471, 9471), (10102, 10110),
     (10112, 10120), (10122, 10130), (42528, 42537), (43216, 43225), (43264, 43273),
     (43472, 43481), (43504, 43513), (43600, 43609), (44016, 44025), (65296, 65305),
     (66720, 66729), (68160, 68163), (68912, 68921), (69216, 69224), (69714, 69722),
     (69734, 69743), (69872, 69881), (69942, 69951), (70096, 70105), (70384, 70393),
     (70736, 70745), (70864, 70873), (71248, 71257), (71360, 71369), (71472, 71481),
     (71904, 71913), (72016, 72025), (72784, 72793), (73040, 73049), (73120, 73129),
     (92768, 92777), (92864, 92873), (93008, 93017), (120782, 120831), (123200, 123209),
     (123632, 123641), (125264, 125273), (127232, 127242), (130032, 130041)]"

definition isdigit_cp :: "nat \<Rightarrow> bool" where
  "isdigit_cp c = list_ex (\<lambda>(lo, hi). lo \<le> c \<and> c \<le> hi) digit_ranges"

definition isdigit :: "pystr \<Rightarrow> bool" where
  "isdigit s = (s \<noteq> [] \<and> list_all isdigit_cp s)"

text \<open>The spec's reading of "digit": the ten ASCII characters \<open>0\<close> to \<open>9\<close>.\<close>

definition ascii_digit :: "nat \<Rightarrow> bool" where
  "ascii_digit c = (48 \<le> c \<and> c \<le> 57)"

definition spec_phone_format :: "pystr \<Rightarrow> bool" where
  "spec_phone_format s = (list_all ascii_digit s \<and> length s = 10)"

text \<open>
  Exceptions are values. \<open>ValueError msg\<close> is a \<open>ValueError\<close> raised by task1.py with the
  given message; \<open>ValueError_not_in_list\<close> is the \<open>ValueError\<close> that \<open>list.remove\<close> and
  \<open>list.index\<close> raise for an absent element (its text holds the element's \<open>repr\<close>, which
  is not modelled); \<open>IndexError\<close> and \<open>KeyError\<close> are those of list assignment and of
  \<open>del\<close> on a dictionary.
\<close>

datatype error = ValueError pystr | ValueError_not_in_list | IndexError | KeyError pystr

text \<open>
  \<open>list.remove(x)\<close> deletes the first element equal to \<open>x\<close> and \<open>list.index(x)\<close> gives
  its position; both raise when there is none. \<open>xs[i] = v\<close> raises out of range.
\<close>

fun list_remove :: "'a \<Rightarrow> 'a list \<Rightarrow> error + 'a list" where
  "list_remove x [] = Inl ValueError_not_in_list"
| "list_remove x (y # ys) =
     (if y = x then Inr ys
      else (case list_remove x ys of Inl e \<Rightarrow> Inl e | Inr zs \<Rightarrow> Inr (y # zs)))"

fun list_index :: "'a \<Rightarrow> 'a list \<Rightarrow> error + nat" where
  "list_index x [] = Inl ValueError_not_in_list"
| "list_index x (y # ys) =
     (if y = x then Inr 0
      else (case list_index x ys of Inl e \<Rightarrow> Inl e | Inr i \<Rightarrow> Inr (Suc i)))"

definition list_setitem :: "'a list \<Rightarrow> nat \<Rightarrow> 'a \<Rightarrow> error + 'a list" where
  "list_setitem xs i v = (if i < length xs then Inr (xs[i := v]) else Inl IndexError)"

text \<open>\<open>sep.join(parts)\<close>: the parts in order, with \<open>sep\<close> between neighbours.\<close>

fun join :: "pystr \<Rightarrow> pystr list \<Rightarrow> pystr" where
  "join sep [] = []"
| "join sep [x] = x"
| "join sep (x # y # ys) = x @ sep @ join sep (y # ys)"

text \<open>\<open>del d[k]\<close> raises \<open>KeyError\<close> for an absent key.\<close>

definition dict_del :: "('k \<rightharpoonup> 'v) \<Rightarrow> 'k \<Rightarrow> pystr \<Rightarrow> error + ('k \<rightharpoonup> 'v)" where
  "dict_del d k shown = (if d k = None then Inl (KeyError shown) else Inr (d(k := None)))"

section \<open>Field, Name and Phone\<close>

text \<open>
  \<open>Field.__init__\<close> stores its argument in the attribute \<open>value\<close>; \<open>Name\<close> inherits it
  unchanged, so the constructors \<open>Name\<close> and \<open>Phone\<close> below are \<open>Field.__init__\<close> at the two
  subclasses and the selectors are the attribute \<open>value\<close>. \<open>Phone.__init__\<close>, which checks
  first, is \<open>Phone_init\<close>.
\<close>

datatype Name = Name (name_value: pystr)

datatype Phone = Phone (phone_value: pystr)

text \<open>
  The message of \<open>Phone.__init__\<close>, in Ukrainian: "Nevirnyi format nomera telefonu.
  Ochikuietsia 10 tsyfr." (wrong phone number format, 10 digits expected).
\<close>

definition invalid_format_msg :: pystr where
  "invalid_format_msg =
    [1053, 1077, 1074, 1110, 1088, 1085, 1080, 1081, 32, 1092, 1086, 1088, 1084, 1072,
     1090, 32, 1085, 1086, 1084, 1077, 1088, 1072, 32, 1090, 1077, 1083, 1077, 1092, 1086,
     1085, 1091, 46, 32, 1054, 1095, 1110, 1082, 1091, 1108, 1090, 1100, 1089, 1103, 32,
     49, 48, 32, 1094, 1080, 1092, 1088, 46]"

definition Phone_is_valid :: "pystr \<Rightarrow> bool" where
  "Phone_is_valid v = (isdigit v \<and> length v = 10)"

definition Phone_init :: "pystr \<Rightarrow> error + Phone" where
  "Phone_init v =
     (if \<not> Phone_is_valid v then Inl (ValueError invalid_format_msg) else Inr (Phone v))"

section \<open>Record\<close>

text \<open>
  A method that mutates \<open>self\<close> takes the object's state and returns the outcome of the
  call (\<open>Inr ()\<close> for a normal return, \<open>Inl e\<close> for a raised exception) together with the
  state the object is left in.

  \<open>find_phone\<close> returns the list element itself. \<open>Phone\<close> defines no \<open>__eq__\<close>, so
  \<open>list.remove\<close> and \<open>list.index\<close> compare by identity and act on the first position that
  holds the found object. That object is the first element with the searched value, and an
  earlier position holding the same object would hold the same value; so the position is
  also the first one whose element equals the found one as a value, which is what
  \<open>list_remove\<close> and \<open>list_index\<close> compute here.
\<close>

record Record =
  name :: Name
  phones :: "Phone list"

definition Record_init :: "pystr \<Rightarrow> Record" where
  "Record_init n = \<lparr>name = Name n, phones = []\<rparr>"

definition add_phone :: "pystr \<Rightarrow> Record \<Rightarrow> (error + unit) \<times> Record" where
  "add_phone phone r =
     (case Phone_init phone of
        Inl e \<Rightarrow> (Inl e, r)
      | Inr p \<Rightarrow> (Inr (), r\<lparr>phones := phones r @ [p]\<rparr>))"

fun find_phone_loop :: "pystr \<Rightarrow> Phone list \<Rightarrow> Phone option" where
  "find_phone_loop phone [] = None"
| "find_phone_loop phone (ph # rest) =
     (if phone_value ph = phone then Some ph else find_phone_loop phone rest)"

definition find_phone :: "pystr \<Rightarrow> Record \<Rightarrow> Phone option" where
  "find_phone phone r = find_phone_loop phone (phones r)"

definition remove_phone :: "pystr \<Rightarrow> Record \<Rightarrow> (error + unit) \<times> Record" where
  "remove_phone phone r =
     (case find_phone phone r of
        None \<Rightarrow> (Inr (), r)
      | Some phone_obj \<Rightarrow>
          (case list_remove phone_obj (phones r) of
             Inl e \<Rightarrow> (Inl e, r)
           | Inr ps \<Rightarrow> (Inr (), r\<lparr>phones := ps\<rparr>)))"

text \<open>
  The message of \<open>edit_phone\<close>: "Nomer \<open>old_phone\<close> ne znaideno u kontakti \<open>name\<close>."
  (number not found in contact).
\<close>

definition not_found_msg :: "pystr \<Rightarrow> pystr \<Rightarrow> pystr" where
  "not_found_msg old_phone contact =
     [1053, 1086, 1084, 1077, 1088, 32] @ old_phone @
     [32, 1085, 1077, 32, 1079, 1085, 1072, 1081, 1076, 1077, 1085, 1086, 32, 1091, 32,
      1082, 1086, 1085, 1090, 1072, 1082, 1090, 1110, 32] @ contact @ [46]"

definition edit_phone :: "pystr \<Rightarrow> pystr \<Rightarrow> Record \<Rightarrow> (error + unit) \<times> Record" where
  "edit_phone old_phone new_phone r =
     (case find_phone old_phone r of
        None \<Rightarrow> (Inl (ValueError (not_found_msg old_phone (name_value (name r)))), r)
      | Some phone_obj \<Rightarrow>
          (case Phone_init new_phone of
             Inl e \<Rightarrow> (Inl e, r)
           | Inr new_phone_obj \<Rightarrow>
               (case list_index phone_obj (phones r) of
                  Inl e \<Rightarrow> (Inl e, r)
                | Inr index \<Rightarrow>
                    (case list_setitem (phones r) index new_phone_obj of
                       Inl e \<Rightarrow> (Inl e, r)
                     | Inr ps \<Rightarrow> (Inr (), r\<lparr>phones := ps\<rparr>)))))"

text \<open>The phrase for an empty phone list: "nemaie nomeriv" (no numbers).\<close>

definition no_phones_msg :: pystr where
  "no_phones_msg = [1085, 1077, 1084, 1072, 1108, 32, 1085, 1086, 1084, 1077, 1088, 1110, 1074]"

definition Record_str :: "Record \<Rightarrow> pystr" where
  "Record_str r =
     (let phones_str =
        (if phones r \<noteq> [] then join (ascii ''; '') (map phone_value (phones r))
         else no_phones_msg)
      in ascii ''Contact name: '' @ name_value (name r) @ ascii '', phones: '' @ phones_str)"

section \<open>AddressBook\<close>

text \<open>
  \<open>AddressBook\<close> is a \<open>UserDict\<close>: its state is the dictionary \<open>data\<close>, from contact names
  to records.
\<close>

record AddressBook =
  data :: "pystr \<rightharpoonup> Record"

definition AddressBook_init :: AddressBook where
  "AddressBook_init = \<lparr>data = Map.empty\<rparr>"

definition add_record :: "Record \<Rightarrow> AddressBook \<Rightarrow> (error + unit) \<times> AddressBook" where
  "add_record record b = (Inr (), b\<lparr>data := (data b)(name_value (name record) \<mapsto> record)\<rparr>)"

definition AddressBook_find :: "pystr \<Rightarrow> AddressBook \<Rightarrow> Record option" where
  "AddressBook_find n b = data b n"

definition delete :: "pystr \<Rightarrow> AddressBook \<Rightarrow> (error + unit) \<times> AddressBook" where
  "delete n b =
     (if data b n \<noteq> None then
        (case dict_del (data b) n n of
           Inl e \<Rightarrow> (Inl e, b)
         | Inr d \<Rightarrow> (Inr (), b\<lparr>data := d\<rparr>))
      else (Inr (), b))"

section \<open>Reachable states\<close>

text \<open>
  The mutating calls of the public interface of \<open>Record\<close>, and the records that a program
  can build with them from a freshly constructed one. A call that raises leaves the record
  in the state returned with the exception.
\<close>

datatype record_call = AddPhone pystr | RemovePhone pystr | EditPhone pystr pystr

fun do_call :: "record_call \<Rightarrow> Record \<Rightarrow> (error + unit) \<times> Record" where
  "do_call (AddPhone p) r = add_phone p r"
| "do_call (RemovePhone p) r = remove_phone p r"
| "do_call (EditPhone old new) r = edit_phone old new r"

inductive record_reachable :: "Record \<Rightarrow> bool" where
  constructed: "record_reachable (Record_init n)"
| called: "record_reachable r \<Longrightarrow> record_reachable (snd (do_call c r))"

text \<open>
  The address books a program can build: from the empty one by \<open>add_record\<close> of any record
  and by \<open>delete\<close>. The dictionary holds references, so a record that is in the book can
  also be changed in place by a call on the object that \<open>find\<close> returns (or that the
  caller kept); the last rule is that step.
\<close>

inductive book_reachable :: "AddressBook \<Rightarrow> bool" where
  empty_book: "book_reachable AddressBook_init"
| added: "book_reachable b \<Longrightarrow> book_reachable (snd (add_record record b))"
| deleted: "book_reachable b \<Longrightarrow> book_reachable (snd (delete n b))"
| record_called: "book_reachable b \<Longrightarrow> data b k = Some r \<Longrightarrow>
     book_reachable (b\<lparr>data := (data b)(k \<mapsto> snd (do_call c r))\<rparr>)"

text \<open>
  The line boundaries of Python (\<open>str.splitlines\<close>): LF, VT, FF, CR, FS, GS, RS, NEL,
  LINE SEPARATOR and PARAGRAPH SEPARATOR.
\<close>

definition linebreak :: "nat \<Rightarrow> bool" where
  "linebreak c = (c \<in> set [10, 11, 12, 13, 28, 29, 30, 133, 8232, 8233])"

section \<open>Phone validation\<close>

lemma ascii_digit_isdigit_cp: "ascii_digit c \<Longrightarrow> isdigit_cp c"
  by (simp add: ascii_digit_def isdigit_cp_def digit_ranges_def)

lemma Phone_is_valid_iff:
  "Phone_is_valid s \<longleftrightarrow> length s = 10 \<and> (\<forall>c\<in>set s. isdigit_cp c)"
  by (auto simp: Phone_is_valid_def isdigit_def list_all_iff)

lemma spec_phone_format_valid: "spec_phone_format s \<Longrightarrow> Phone_is_valid s"
  by (auto simp: spec_phone_format_def Phone_is_valid_iff list_all_iff
      intro: ascii_digit_isdigit_cp)


section \<open>Searching the phone list\<close>

lemma find_phone_loop_None:
  "find_phone_loop p ps = None \<longleftrightarrow> (\<forall>ph\<in>set ps. phone_value ph \<noteq> p)"
  by (induction ps) auto

lemma find_phone_loop_Some:
  "find_phone_loop p ps = Some ph \<Longrightarrow>
     \<exists>i<length ps. ps ! i = ph \<and> phone_value ph = p \<and> (\<forall>j<i. phone_value (ps ! j) \<noteq> p)
       \<and> list_index ph ps = Inr i \<and> list_remove ph ps = Inr (take i ps @ drop (Suc i) ps)"
proof (induction ps)
  case Nil
  then show ?case by simp
next
  case (Cons y ys)
  show ?case
  proof (cases "phone_value y = p")
    case True
    with Cons.prems have "y = ph" by simp
    with True show ?thesis by (intro exI [of _ 0]) simp
  next
    case False
    with Cons.prems have "find_phone_loop p ys = Some ph" by simp
    from Cons.IH [OF this] obtain i where i: "i < length ys" "ys ! i = ph"
      "phone_value ph = p" "\<forall>j<i. phone_value (ys ! j) \<noteq> p"
      "list_index ph ys = Inr i" "list_remove ph ys = Inr (take i ys @ drop (Suc i) ys)"
      by blast
    from False i(3) have ne: "y \<noteq> ph" by auto
    have "\<forall>j<Suc i. phone_value ((y # ys) ! j) \<noteq> p"
      using False i(4) by (auto simp: less_Suc_eq_0_disj)
    with i ne show ?thesis by (intro exI [of _ "Suc i"]) simp
  qed
qed

lemma first_match_unique:
  assumes "i < length ps" "phone_value (ps ! i) = p" "\<forall>j<i. phone_value (ps ! j) \<noteq> p"
    and "k < length ps" "phone_value (ps ! k) = p" "\<forall>j<k. phone_value (ps ! j) \<noteq> p"
  shows "i = k"
proof (rule ccontr)
  assume "i \<noteq> k"
  then consider "i < k" | "k < i" by linarith
  then show False
  proof cases
    case 1
    with assms(6) have "phone_value (ps ! i) \<noteq> p" by blast
    with assms(2) show False by simp
  next
    case 2
    with assms(3) have "phone_value (ps ! k) \<noteq> p" by blast
    with assms(5) show False by simp
  qed
qed

lemma find_phone_Some_iff:
  "find_phone_loop p ps = Some ph \<longleftrightarrow>
     (\<exists>i<length ps. ps ! i = ph \<and> phone_value ph = p \<and> (\<forall>j<i. phone_value (ps ! j) \<noteq> p))"
proof
  assume "find_phone_loop p ps = Some ph"
  from find_phone_loop_Some [OF this] show
    "\<exists>i<length ps. ps ! i = ph \<and> phone_value ph = p \<and> (\<forall>j<i. phone_value (ps ! j) \<noteq> p)"
    by blast
next
  assume "\<exists>i<length ps. ps ! i = ph \<and> phone_value ph = p \<and> (\<forall>j<i. phone_value (ps ! j) \<noteq> p)"
  then obtain i where i: "i < length ps" "ps ! i = ph" "phone_value ph = p"
    "\<forall>j<i. phone_value (ps ! j) \<noteq> p" by blast
  then have "find_phone_loop p ps \<noteq> None"
    by (auto simp: find_phone_loop_None)
  then obtain q where q: "find_phone_loop p ps = Some q" by blast
  from find_phone_loop_Some [OF q] obtain k where k: "k < length ps" "ps ! k = q"
    "phone_value q = p" "\<forall>j<k. phone_value (ps ! j) \<noteq> p" by blast
  have "phone_value (ps ! i) = p" "phone_value (ps ! k) = p"
    using i k by simp_all
  with i(1,4) k(1,4) have "i = k"
    by (rule_tac first_match_unique [of i ps p k])
  with i k q show "find_phone_loop p ps = Some ph" by simp
qed

lemma find_phone_present:
  "\<exists>ph\<in>set (phones r). phone_value ph = p \<Longrightarrow> \<exists>q. find_phone p r = Some q"
  using find_phone_loop_None [of p "phones r"] by (auto simp: find_phone_def)

section \<open>Phone construction\<close>

text \<open>
  C1, as stated, fails: the string of ten SUPERSCRIPT TWO characters (U+00B2) has no ASCII
  digit, yet \<open>str.isdigit\<close> holds for it and its length is 10, so \<open>Phone\<close> accepts it.
\<close>

theorem Phone_init_superscript_accepted:
  "Phone_init [178, 178, 178, 178, 178, 178, 178, 178, 178, 178]
     = Inr (Phone [178, 178, 178, 178, 178, 178, 178, 178, 178, 178])
   \<and> \<not> spec_phone_format [178, 178, 178, 178, 178, 178, 178, 178, 178, 178]"
  by (simp add: Phone_init_def Phone_is_valid_def isdigit_def isdigit_cp_def digit_ranges_def
      spec_phone_format_def ascii_digit_def)

text \<open>
  C1, amended: constructing a \<open>Phone\<close> from \<open>s\<close> succeeds if and only if \<open>s\<close> has length
  exactly 10 and each of its characters is a digit in the sense of \<open>str.isdigit\<close>; on
  success the stored value is \<open>s\<close> verbatim; every other input fails with the
  invalid-format \<open>ValueError\<close>; and in particular every string of exactly ten ASCII digits
  is accepted.
\<close>

theorem Phone_init_accepts:
  "((\<exists>p. Phone_init s = Inr p) \<longleftrightarrow> length s = 10 \<and> (\<forall>c\<in>set s. isdigit_cp c))
   \<and> (\<forall>p. Phone_init s = Inr p \<longrightarrow> phone_value p = s)
   \<and> (\<not> (length s = 10 \<and> (\<forall>c\<in>set s. isdigit_cp c))
        \<longrightarrow> Phone_init s = Inl (ValueError invalid_format_msg))
   \<and> (spec_phone_format s \<longrightarrow> Phone_init s = Inr (Phone s))"
  using spec_phone_format_valid [of s]
  by (auto simp: Phone_init_def Phone_is_valid_iff)

theorem Phone_init_accepts_witness:
  "Phone_init (ascii ''1234567890'') = Inr (Phone (ascii ''1234567890''))
   \<and> Phone_init (ascii ''123'') = Inl (ValueError invalid_format_msg)
   \<and> Phone_init (ascii ''12345abcde'') = Inl (ValueError invalid_format_msg)"
proof -
  have a: "spec_phone_format (ascii ''1234567890'')"
    by (simp add: spec_phone_format_def ascii_digit_def ascii_def)
  have b: "\<not> (length (ascii ''123'') = 10 \<and> (\<forall>c\<in>set (ascii ''123''). isdigit_cp c))"
    by (simp add: ascii_def)
  have c: "\<not> (length (ascii ''12345abcde'') = 10
      \<and> (\<forall>c\<in>set (ascii ''12345abcde''). isdigit_cp c))"
    by (simp add: ascii_def isdigit_cp_def digit_ranges_def)
  from a b c Phone_init_accepts [of "ascii ''1234567890''"] Phone_init_accepts [of "ascii ''123''"]
    Phone_init_accepts [of "ascii ''12345abcde''"]
  show ?thesis by blast
qed

section \<open>Editing a phone\<close>

lemma edit_phone_found:
  assumes "find_phone old r = Some ph" and "Phone_is_valid new"
  shows "\<exists>i<length (phones r). phones r ! i = ph \<and> phone_value ph = old
           \<and> (\<forall>j<i. phone_value (phones r ! j) \<noteq> old)
           \<and> edit_phone old new r = (Inr (), r\<lparr>phones := (phones r)[i := Phone new]\<rparr>)"
proof -
  from assms(1) have "find_phone_loop old (phones r) = Some ph"
    by (simp add: find_phone_def)
  from find_phone_loop_Some [OF this] obtain i where i: "i < length (phones r)"
    "phones r ! i = ph" "phone_value ph = old" "\<forall>j<i. phone_value (phones r ! j) \<noteq> old"
    "list_index ph (phones r) = Inr i" by blast
  from assms i(1,5) have
    "edit_phone old new r = (Inr (), r\<lparr>phones := (phones r)[i := Phone new]\<rparr>)"
    by (simp add: edit_phone_def Phone_init_def list_setitem_def)
  with i show ?thesis by blast
qed

text \<open>
  C2, as stated, fails when "not a valid phone format" is the format of ten ASCII digits:
  the string of ten SUPERSCRIPT TWO characters is not in that format, yet \<open>edit_phone\<close>
  with it as the new number returns normally and overwrites the old phone.
\<close>

theorem edit_phone_superscript_replaces:
  "\<not> spec_phone_format [178, 178, 178, 178, 178, 178, 178, 178, 178, 178]
   \<and> edit_phone (ascii ''1234567890'') [178, 178, 178, 178, 178, 178, 178, 178, 178, 178]
       \<lparr>name = Name (ascii ''John''), phones = [Phone (ascii ''1234567890'')]\<rparr>
     = (Inr (), \<lparr>name = Name (ascii ''John''),
          phones = [Phone [178, 178, 178, 178, 178, 178, 178, 178, 178, 178]]\<rparr>)"
  by (simp add: spec_phone_format_def ascii_digit_def edit_phone_def find_phone_def
      Phone_init_def Phone_is_valid_def isdigit_def isdigit_cp_def digit_ranges_def
      list_setitem_def ascii_def)

text \<open>
  C2, amended: when the record holds a phone equal to \<open>old\<close> and \<open>new\<close> does not pass the
  validation that \<open>Phone\<close> runs (\<open>Phone_is_valid\<close>: length 10 and only digits in the sense of
  \<open>str.isdigit\<close>), \<open>edit_phone old new\<close> raises the invalid-format \<open>ValueError\<close> and the
  record is left exactly as it was: the new value is constructed, and rejected, before the
  list is touched, so every phone, the old one included, is still at its position.
\<close>

theorem edit_phone_invalid_new:
  assumes "\<exists>ph\<in>set (phones r). phone_value ph = old" and "\<not> Phone_is_valid new"
  shows "fst (edit_phone old new r) = Inl (ValueError invalid_format_msg)
         \<and> snd (edit_phone old new r) = r
         \<and> phones (snd (edit_phone old new r)) = phones r"
proof -
  from assms(1) obtain q where "find_phone old r = Some q"
    using find_phone_present by blast
  with assms(2) show ?thesis
    by (simp add: edit_phone_def Phone_init_def)
qed

theorem edit_phone_invalid_new_witness:
  "edit_phone (ascii ''5555555555'') (ascii ''12ab'')
     \<lparr>name = Name (ascii ''John''),
      phones = [Phone (ascii ''1234567890''), Phone (ascii ''5555555555'')]\<rparr>
   = (Inl (ValueError invalid_format_msg),
      \<lparr>name = Name (ascii ''John''),
       phones = [Phone (ascii ''1234567890''), Phone (ascii ''5555555555'')]\<rparr>)"
proof -
  let ?r = "\<lparr>name = Name (ascii ''John''),
    phones = [Phone (ascii ''1234567890''), Phone (ascii ''5555555555'')]\<rparr>"
  have a: "\<exists>ph\<in>set (phones ?r). phone_value ph = ascii ''5555555555''"
    by simp
  have b: "\<not> Phone_is_valid (ascii ''12ab'')"
    by (simp add: Phone_is_valid_def ascii_def)
  from edit_phone_invalid_new [OF a b] show ?thesis
    by (simp add: prod_eq_iff)
qed

text \<open>
  C3: when no phone of the record equals \<open>old\<close>, \<open>edit_phone old new\<close> raises a \<open>ValueError\<close>
  whose message contains the missing number \<open>old\<close> and the contact's name, and is not the
  invalid-format message; the record is left exactly as it was.
\<close>

theorem edit_phone_absent:
  assumes "\<forall>ph\<in>set (phones r). phone_value ph \<noteq> old"
  shows "\<exists>msg. fst (edit_phone old new r) = Inl (ValueError msg)
           \<and> sublist old msg \<and> sublist (name_value (name r)) msg
           \<and> msg \<noteq> invalid_format_msg
           \<and> snd (edit_phone old new r) = r
           \<and> phones (snd (edit_phone old new r)) = phones r"
proof -
  let ?msg = "not_found_msg old (name_value (name r))"
  from assms have "find_phone old r = None"
    by (simp add: find_phone_def find_phone_loop_None)
  then have e: "edit_phone old new r = (Inl (ValueError ?msg), r)"
    by (simp add: edit_phone_def)
  have s1: "sublist old ?msg"
    unfolding not_found_msg_def sublist_def by blast
  have s2: "sublist (name_value (name r)) ?msg"
    unfolding not_found_msg_def sublist_def
    by (metis append.assoc)
  have "?msg ! 1 = 1086" "invalid_format_msg ! 1 = 1077"
    by (simp_all add: not_found_msg_def invalid_format_msg_def)
  then have "?msg \<noteq> invalid_format_msg" by auto
  with e s1 s2 show ?thesis by simp
qed

theorem edit_phone_absent_witness:
  "edit_phone (ascii ''0000000000'') (ascii ''1112223333'')
     \<lparr>name = Name (ascii ''John''), phones = [Phone (ascii ''1234567890'')]\<rparr>
   = (Inl (ValueError (not_found_msg (ascii ''0000000000'') (ascii ''John''))),
      \<lparr>name = Name (ascii ''John''), phones = [Phone (ascii ''1234567890'')]\<rparr>)"
proof -
  let ?r = "\<lparr>name = Name (ascii ''John''), phones = [Phone (ascii ''1234567890'')]\<rparr>"
  have a: "\<forall>ph\<in>set (phones ?r). phone_value ph \<noteq> ascii ''0000000000''"
    by (simp add: ascii_def)
  from edit_phone_absent [OF a, of "ascii ''1112223333''"]
  have "snd (edit_phone (ascii ''0000000000'') (ascii ''1112223333'') ?r) = ?r"
    by blast
  moreover have "fst (edit_phone (ascii ''0000000000'') (ascii ''1112223333'') ?r)
    = Inl (ValueError (not_found_msg (ascii ''0000000000'') (ascii ''John'')))"
    by (simp add: edit_phone_def find_phone_def ascii_def)
  ultimately show ?thesis
    by (simp add: prod_eq_iff)
qed

text \<open>
  C4: when the record holds a phone equal to \<open>old\<close> and \<open>new\<close> passes the phone validation,
  \<open>edit_phone old new\<close> returns normally and replaces the element at the position \<open>i\<close> of the
  first occurrence of \<open>old\<close> by the new phone: the list keeps its length, position \<open>i\<close>
  holds \<open>new\<close>, and every other position, later duplicates of \<open>old\<close> included, holds what
  it held before.
\<close>

theorem edit_phone_replaces_first:
  assumes "\<exists>ph\<in>set (phones r). phone_value ph = old" and "Phone_is_valid new"
  shows "\<exists>i<length (phones r).
           phone_value (phones r ! i) = old
           \<and> (\<forall>j<i. phone_value (phones r ! j) \<noteq> old)
           \<and> fst (edit_phone old new r) = Inr ()
           \<and> snd (edit_phone old new r) = r\<lparr>phones := (phones r)[i := Phone new]\<rparr>
           \<and> length (phones (snd (edit_phone old new r))) = length (phones r)
           \<and> phones (snd (edit_phone old new r)) ! i = Phone new
           \<and> (\<forall>j<length (phones r). j \<noteq> i \<longrightarrow>
                 phones (snd (edit_phone old new r)) ! j = phones r ! j)"
proof -
  from assms(1) obtain q where "find_phone old r = Some q"
    using find_phone_present by blast
  from edit_phone_found [OF this assms(2)] obtain i where i: "i < length (phones r)"
    "phones r ! i = q" "phone_value q = old" "\<forall>j<i. phone_value (phones r ! j) \<noteq> old"
    "edit_phone old new r = (Inr (), r\<lparr>phones := (phones r)[i := Phone new]\<rparr>)"
    by blast
  show ?thesis
  proof (intro exI [of _ i] conjI)
    show "i < length (phones r)" by (rule i(1))
    show "phone_value (phones r ! i) = old" using i(2,3) by simp
    show "\<forall>j<i. phone_value (phones r ! j) \<noteq> old" by (rule i(4))
    show "fst (edit_phone old new r) = Inr ()" by (simp add: i(5))
    show "snd (edit_phone old new r) = r\<lparr>phones := (phones r)[i := Phone new]\<rparr>"
      by (simp add: i(5))
    show "length (phones (snd (edit_phone old new r))) = length (phones r)"
      by (simp add: i(5))
    show "phones (snd (edit_phone old new r)) ! i = Phone new"
      using i(1) by (simp add: i(5))
    show "\<forall>j<length (phones r). j \<noteq> i \<longrightarrow>
        phones (snd (edit_phone old new r)) ! j = phones r ! j"
      by (simp add: i(5))
  qed
qed

theorem edit_phone_replaces_first_witness:
  "snd (edit_phone (ascii ''5555555555'') (ascii ''1112223333'')
     \<lparr>name = Name (ascii ''John''),
      phones = [Phone (ascii ''1234567890''), Phone (ascii ''5555555555''),
                Phone (ascii ''5555555555'')]\<rparr>)
   = \<lparr>name = Name (ascii ''John''),
      phones = [Phone (ascii ''1234567890''), Phone (ascii ''1112223333''),
                Phone (ascii ''5555555555'')]\<rparr>"
proof -
  let ?ps = "[Phone (ascii ''1234567890''), Phone (ascii ''5555555555''),
    Phone (ascii ''5555555555'')]"
  let ?r = "\<lparr>name = Name (ascii ''John''), phones = ?ps\<rparr>"
  let ?old = "ascii ''5555555555''"
  let ?new = "ascii ''1112223333''"
  have a: "\<exists>ph\<in>set (phones ?r). phone_value ph = ?old"
    by simp
  have b: "Phone_is_valid ?new"
    by (simp add: Phone_is_valid_def isdigit_def isdigit_cp_def digit_ranges_def ascii_def)
  from edit_phone_replaces_first [OF a b] obtain i where i: "i < length (phones ?r)"
    "phone_value (phones ?r ! i) = ?old" "\<forall>j<i. phone_value (phones ?r ! j) \<noteq> ?old"
    "snd (edit_phone ?old ?new ?r) = ?r\<lparr>phones := (phones ?r)[i := Phone ?new]\<rparr>"
    by blast
  have one: "(1::nat) < length (phones ?r)" "phone_value (phones ?r ! 1) = ?old"
    "\<forall>j<1. phone_value (phones ?r ! j) \<noteq> ?old"
    by (simp_all add: ascii_def)
  have "i = 1"
    using i(1,2,3) one by (rule first_match_unique)
  with i(4) show ?thesis by simp
qed

section \<open>Adding, finding and removing a phone\<close>

lemma add_phone_ok:
  "fst (add_phone p r) = Inr () \<Longrightarrow>
     Phone_is_valid p \<and> snd (add_phone p r) = r\<lparr>phones := phones r @ [Phone p]\<rparr>"
  by (auto simp: add_phone_def Phone_init_def split: if_splits)

lemma remove_phone_found:
  assumes "find_phone p r = Some ph"
  shows "\<exists>i<length (phones r). phones r ! i = ph \<and> phone_value ph = p
           \<and> (\<forall>j<i. phone_value (phones r ! j) \<noteq> p)
           \<and> remove_phone p r
               = (Inr (), r\<lparr>phones := take i (phones r) @ drop (Suc i) (phones r)\<rparr>)"
proof -
  from assms have "find_phone_loop p (phones r) = Some ph"
    by (simp add: find_phone_def)
  from find_phone_loop_Some [OF this] obtain i where i: "i < length (phones r)"
    "phones r ! i = ph" "phone_value ph = p" "\<forall>j<i. phone_value (phones r ! j) \<noteq> p"
    "list_remove ph (phones r) = Inr (take i (phones r) @ drop (Suc i) (phones r))"
    by blast
  from assms i(5) have "remove_phone p r
      = (Inr (), r\<lparr>phones := take i (phones r) @ drop (Suc i) (phones r)\<rparr>)"
    by (simp add: remove_phone_def)
  with i show ?thesis by blast
qed

lemma remove_phone_absent:
  "\<forall>ph\<in>set (phones r). phone_value ph \<noteq> p \<Longrightarrow> remove_phone p r = (Inr (), r)"
proof -
  assume "\<forall>ph\<in>set (phones r). phone_value ph \<noteq> p"
  then have "find_phone p r = None"
    by (simp add: find_phone_def find_phone_loop_None)
  then show ?thesis
    by (simp add: remove_phone_def)
qed

lemma remove_phone_cases:
  "remove_phone p r = (Inr (), r)
   \<or> (\<exists>i<length (phones r). remove_phone p r
          = (Inr (), r\<lparr>phones := take i (phones r) @ drop (Suc i) (phones r)\<rparr>))"
proof (cases "find_phone p r")
  case None
  then show ?thesis by (simp add: remove_phone_def)
next
  case (Some ph)
  from remove_phone_found [OF this] show ?thesis by blast
qed

lemma delete_eq:
  "delete n b = (Inr (), if data b n = None then b else b\<lparr>data := (data b)(n := None)\<rparr>)"
  by (simp add: delete_def dict_del_def)

text \<open>
  C5: when \<open>add_phone p\<close> returns normally it has appended \<open>Phone p\<close> at the end of the phone
  list, and \<open>find_phone p\<close> on the record so obtained returns a phone whose value is \<open>p\<close>. In
  general \<open>find_phone raw\<close> returns \<open>None\<close> exactly when no phone of the list has the value
  \<open>raw\<close>, and returns \<open>ph\<close> exactly when \<open>ph\<close> is the element at the first position, in list
  order, whose stored value is exactly \<open>raw\<close>.
\<close>

theorem find_phone_after_add:
  "(fst (add_phone p r) = Inr () \<longrightarrow>
      phones (snd (add_phone p r)) = phones r @ [Phone p]
      \<and> (\<exists>ph. find_phone p (snd (add_phone p r)) = Some ph \<and> phone_value ph = p))
   \<and> (find_phone raw r = None \<longleftrightarrow> (\<forall>ph\<in>set (phones r). phone_value ph \<noteq> raw))
   \<and> (find_phone raw r = Some ph \<longleftrightarrow>
        (\<exists>i<length (phones r). phones r ! i = ph \<and> phone_value ph = raw
           \<and> (\<forall>j<i. phone_value (phones r ! j) \<noteq> raw)))"
proof (intro conjI impI)
  assume ok: "fst (add_phone p r) = Inr ()"
  let ?r' = "snd (add_phone p r)"
  from add_phone_ok [OF ok] show ps: "phones ?r' = phones r @ [Phone p]"
    by simp
  then have "\<exists>ph\<in>set (phones ?r'). phone_value ph = p"
    by simp
  from find_phone_present [OF this] obtain q where q: "find_phone p ?r' = Some q"
    by blast
  then have "find_phone_loop p (phones ?r') = Some q"
    by (simp add: find_phone_def)
  from find_phone_loop_Some [OF this] have "phone_value q = p"
    by blast
  with q show "\<exists>ph. find_phone p ?r' = Some ph \<and> phone_value ph = p"
    by blast
next
  show "find_phone raw r = None \<longleftrightarrow> (\<forall>ph\<in>set (phones r). phone_value ph \<noteq> raw)"
    by (simp add: find_phone_def find_phone_loop_None)
next
  show "find_phone raw r = Some ph \<longleftrightarrow>
      (\<exists>i<length (phones r). phones r ! i = ph \<and> phone_value ph = raw
         \<and> (\<forall>j<i. phone_value (phones r ! j) \<noteq> raw))"
    unfolding find_phone_def by (rule find_phone_Some_iff)
qed

theorem find_phone_after_add_witness:
  "find_phone (ascii ''5555555555'')
     (snd (add_phone (ascii ''5555555555'')
        \<lparr>name = Name (ascii ''John''), phones = [Phone (ascii ''1234567890'')]\<rparr>))
     = Some (Phone (ascii ''5555555555''))
   \<and> phones (snd (add_phone (ascii ''5555555555'')
        \<lparr>name = Name (ascii ''John''), phones = [Phone (ascii ''1234567890'')]\<rparr>))
     = [Phone (ascii ''1234567890''), Phone (ascii ''5555555555'')]
   \<and> find_phone (ascii ''0000000000'')
        \<lparr>name = Name (ascii ''John''), phones = [Phone (ascii ''1234567890'')]\<rparr> = None"
proof -
  let ?r = "\<lparr>name = Name (ascii ''John''), phones = [Phone (ascii ''1234567890'')]\<rparr>"
  let ?p = "ascii ''5555555555''"
  have ok: "fst (add_phone ?p ?r) = Inr ()"
    by (simp add: add_phone_def Phone_init_def Phone_is_valid_def isdigit_def isdigit_cp_def
        digit_ranges_def ascii_def)
  have absent: "\<forall>ph\<in>set (phones ?r). phone_value ph \<noteq> ascii ''0000000000''"
    by (simp add: ascii_def)
  note t = find_phone_after_add [of ?p ?r "ascii ''0000000000''"]
  from t ok have ps: "phones (snd (add_phone ?p ?r)) = phones ?r @ [Phone ?p]"
    by blast
  from t ok obtain ph where ph: "find_phone ?p (snd (add_phone ?p ?r)) = Some ph"
    "phone_value ph = ?p" by blast
  from ph(2) have "ph = Phone ?p" by (cases ph) simp
  moreover from t absent have "find_phone (ascii ''0000000000'') ?r = None"
    by blast
  ultimately show ?thesis using ph(1) ps by simp
qed

text \<open>
  C6: deleting never raises. \<open>remove_phone p\<close> always returns normally; it leaves the record
  as it was when no phone equals \<open>p\<close>, and otherwise removes the element at the position of
  the first occurrence of \<open>p\<close> and nothing else. \<open>delete n\<close> always returns normally; it
  leaves the book as it was when \<open>n\<close> is not a key, otherwise it removes the entry of \<open>n\<close>
  and keeps the rest, and in both cases \<open>find n\<close> afterwards returns \<open>None\<close>.
\<close>

theorem deletion_total:
  "fst (remove_phone p r) = Inr ()
   \<and> ((\<forall>ph\<in>set (phones r). phone_value ph \<noteq> p) \<longrightarrow> snd (remove_phone p r) = r)
   \<and> ((\<exists>ph\<in>set (phones r). phone_value ph = p) \<longrightarrow>
        (\<exists>i<length (phones r). phone_value (phones r ! i) = p
           \<and> (\<forall>j<i. phone_value (phones r ! j) \<noteq> p)
           \<and> snd (remove_phone p r)
               = r\<lparr>phones := take i (phones r) @ drop (Suc i) (phones r)\<rparr>))
   \<and> fst (delete n b) = Inr ()
   \<and> (data b n = None \<longrightarrow> snd (delete n b) = b)
   \<and> (data b n \<noteq> None \<longrightarrow> data (snd (delete n b)) = (data b)(n := None))
   \<and> AddressBook_find n (snd (delete n b)) = None"
proof (intro conjI impI)
  show "fst (remove_phone p r) = Inr ()"
    using remove_phone_cases [of p r] by auto
next
  assume "\<forall>ph\<in>set (phones r). phone_value ph \<noteq> p"
  from remove_phone_absent [OF this] show "snd (remove_phone p r) = r"
    by simp
next
  assume "\<exists>ph\<in>set (phones r). phone_value ph = p"
  from find_phone_present [OF this] obtain q where "find_phone p r = Some q"
    by blast
  from remove_phone_found [OF this] obtain i where "i < length (phones r)"
    "phones r ! i = q" "phone_value q = p" "\<forall>j<i. phone_value (phones r ! j) \<noteq> p"
    "remove_phone p r = (Inr (), r\<lparr>phones := take i (phones r) @ drop (Suc i) (phones r)\<rparr>)"
    by blast
  then show "\<exists>i<length (phones r). phone_value (phones r ! i) = p
      \<and> (\<forall>j<i. phone_value (phones r ! j) \<noteq> p)
      \<and> snd (remove_phone p r) = r\<lparr>phones := take i (phones r) @ drop (Suc i) (phones r)\<rparr>"
    by (intro exI [of _ i]) simp
next
  show "fst (delete n b) = Inr ()"
    by (simp add: delete_eq)
next
  assume "data b n = None"
  then show "snd (delete n b) = b"
    by (simp add: delete_eq)
next
  assume "data b n \<noteq> None"
  then show "data (snd (delete n b)) = (data b)(n := None)"
    by (auto simp: delete_eq)
next
  show "AddressBook_find n (snd (delete n b)) = None"
    by (simp add: delete_eq AddressBook_find_def)
qed

theorem deletion_total_witness:
  "remove_phone (ascii ''5555555555'')
     \<lparr>name = Name (ascii ''Jane''),
      phones = [Phone (ascii ''9876543210''), Phone (ascii ''5555555555''),
                Phone (ascii ''5555555555'')]\<rparr>
     = (Inr (), \<lparr>name = Name (ascii ''Jane''),
          phones = [Phone (ascii ''9876543210''), Phone (ascii ''5555555555'')]\<rparr>)
   \<and> remove_phone (ascii ''0000000000'')
        \<lparr>name = Name (ascii ''Jane''), phones = [Phone (ascii ''9876543210'')]\<rparr>
     = (Inr (), \<lparr>name = Name (ascii ''Jane''), phones = [Phone (ascii ''9876543210'')]\<rparr>)
   \<and> delete (ascii ''Jane'') AddressBook_init = (Inr (), AddressBook_init)
   \<and> data (snd (delete (ascii ''Jane'')
        \<lparr>data = [ascii ''Jane'' \<mapsto>
           \<lparr>name = Name (ascii ''Jane''), phones = [Phone (ascii ''9876543210'')]\<rparr>]\<rparr>))
     = Map.empty"
proof -
  let ?ps = "[Phone (ascii ''9876543210''), Phone (ascii ''5555555555''),
    Phone (ascii ''5555555555'')]"
  let ?r = "\<lparr>name = Name (ascii ''Jane''), phones = ?ps\<rparr>"
  let ?p = "ascii ''5555555555''"
  let ?s = "\<lparr>name = Name (ascii ''Jane''), phones = [Phone (ascii ''9876543210'')]\<rparr>"
  let ?b = "\<lparr>data = [ascii ''Jane'' \<mapsto> ?s]\<rparr>"
  have present: "\<exists>ph\<in>set (phones ?r). phone_value ph = ?p"
    by simp
  from deletion_total [of ?p ?r] present obtain i where i: "i < length (phones ?r)"
    "phone_value (phones ?r ! i) = ?p" "\<forall>j<i. phone_value (phones ?r ! j) \<noteq> ?p"
    "snd (remove_phone ?p ?r) = ?r\<lparr>phones := take i (phones ?r) @ drop (Suc i) (phones ?r)\<rparr>"
    by blast
  have one: "(1::nat) < length (phones ?r)" "phone_value (phones ?r ! 1) = ?p"
    "\<forall>j<1. phone_value (phones ?r ! j) \<noteq> ?p"
    by (simp_all add: ascii_def)
  have "i = 1"
    using i(1,2,3) one by (rule first_match_unique)
  with i(4) have "snd (remove_phone ?p ?r)
      = \<lparr>name = Name (ascii ''Jane''),
         phones = [Phone (ascii ''9876543210''), Phone (ascii ''5555555555'')]\<rparr>"
    by simp
  moreover from deletion_total [of ?p ?r] have "fst (remove_phone ?p ?r) = Inr ()"
    by blast
  ultimately have first: "remove_phone ?p ?r
      = (Inr (), \<lparr>name = Name (ascii ''Jane''),
           phones = [Phone (ascii ''9876543210''), Phone (ascii ''5555555555'')]\<rparr>)"
    by (simp add: prod_eq_iff)
  have absent: "\<forall>ph\<in>set (phones ?s). phone_value ph \<noteq> ascii ''0000000000''"
    by (simp add: ascii_def)
  with deletion_total [of "ascii ''0000000000''" ?s]
  have "fst (remove_phone (ascii ''0000000000'') ?s) = Inr ()"
    "snd (remove_phone (ascii ''0000000000'') ?s) = ?s"
    by blast+
  then have second: "remove_phone (ascii ''0000000000'') ?s = (Inr (), ?s)"
    by (simp add: prod_eq_iff)
  have "data AddressBook_init (ascii ''Jane'') = None"
    by (simp add: AddressBook_init_def)
  with deletion_total [of _ _ "ascii ''Jane''" AddressBook_init]
  have "fst (delete (ascii ''Jane'') AddressBook_init) = Inr ()"
    "snd (delete (ascii ''Jane'') AddressBook_init) = AddressBook_init"
    by blast+
  then have third: "delete (ascii ''Jane'') AddressBook_init = (Inr (), AddressBook_init)"
    by (simp add: prod_eq_iff)
  have "data ?b (ascii ''Jane'') \<noteq> None"
    by simp
  with deletion_total [of _ _ "ascii ''Jane''" ?b]
  have "data (snd (delete (ascii ''Jane'') ?b)) = (data ?b)(ascii ''Jane'' := None)"
    by blast
  then have fourth: "data (snd (delete (ascii ''Jane'') ?b)) = Map.empty"
    by simp
  from first second third fourth show ?thesis by blast
qed

section \<open>What the calls leave alone\<close>

lemma add_phone_name: "name (snd (add_phone p r)) = name r"
  by (simp add: add_phone_def split: sum.splits)

lemma remove_phone_name: "name (snd (remove_phone p r)) = name r"
  using remove_phone_cases [of p r] by auto

lemma edit_phone_name: "name (snd (edit_phone old new r)) = name r"
  by (simp add: edit_phone_def split: option.splits sum.splits)

lemma do_call_name: "name (snd (do_call c r)) = name r"
  by (cases c) (simp_all add: add_phone_name remove_phone_name edit_phone_name)

text \<open>
  C10: \<open>add_phone\<close>, \<open>remove_phone\<close> and \<open>edit_phone\<close> leave the record's name as it was,
  whether they return or raise; \<open>add_record r\<close> leaves the entry of every key other than
  the name of \<open>r\<close> as it was, and \<open>delete n\<close> that of every key other than \<open>n\<close>.
\<close>

theorem calls_frame:
  "name (snd (add_phone p r)) = name r
   \<and> name (snd (remove_phone p r)) = name r
   \<and> name (snd (edit_phone old new r)) = name r
   \<and> (k \<noteq> name_value (name record) \<longrightarrow> data (snd (add_record record b)) k = data b k)
   \<and> (k \<noteq> n \<longrightarrow> data (snd (delete n b)) k = data b k)"
  by (simp add: add_phone_name remove_phone_name edit_phone_name add_record_def delete_eq)

theorem calls_frame_witness:
  "data (snd (add_record \<lparr>name = Name (ascii ''John''), phones = []\<rparr>
       \<lparr>data = [ascii ''Jane'' \<mapsto> \<lparr>name = Name (ascii ''Jane''), phones = []\<rparr>]\<rparr>))
     (ascii ''Jane'')
     = Some \<lparr>name = Name (ascii ''Jane''), phones = []\<rparr>
   \<and> data (snd (delete (ascii ''John'')
       \<lparr>data = [ascii ''Jane'' \<mapsto> \<lparr>name = Name (ascii ''Jane''), phones = []\<rparr>]\<rparr>))
     (ascii ''Jane'')
     = Some \<lparr>name = Name (ascii ''Jane''), phones = []\<rparr>
   \<and> name (snd (add_phone (ascii ''123'') \<lparr>name = Name (ascii ''John''), phones = []\<rparr>))
     = Name (ascii ''John'')"
proof -
  let ?john = "\<lparr>name = Name (ascii ''John''), phones = []\<rparr>"
  let ?b = "\<lparr>data = [ascii ''Jane'' \<mapsto> \<lparr>name = Name (ascii ''Jane''), phones = []\<rparr>]\<rparr>"
  have ne: "ascii ''Jane'' \<noteq> name_value (name ?john)" "ascii ''Jane'' \<noteq> ascii ''John''"
    by (simp_all add: ascii_def)
  from ne calls_frame [of "ascii ''123''" ?john _ _ "ascii ''Jane''" ?john ?b "ascii ''John''"]
  show ?thesis by simp
qed

section \<open>Invariants\<close>

lemma book_key_is_name:
  "book_reachable b \<Longrightarrow> data b k = Some r \<Longrightarrow> name_value (name r) = k"
proof (induction arbitrary: k r rule: book_reachable.induct)
  case empty_book
  then show ?case by (simp add: AddressBook_init_def)
next
  case (added b rec)
  then show ?case by (auto simp: add_record_def split: if_splits)
next
  case (deleted b n)
  then show ?case by (auto simp: delete_eq split: if_splits)
next
  case (record_called b k' r' c)
  then show ?case by (auto simp: do_call_name split: if_splits)
qed

text \<open>
  C7: in every address book built through the public interface, each key is the name of
  the record stored under it. \<open>add_record\<close> always returns normally and makes the record
  the entry at its own name, whatever was there, keeping all other entries.
\<close>

theorem book_keys_are_names:
  "(book_reachable b \<longrightarrow> (\<forall>k r. data b k = Some r \<longrightarrow> name_value (name r) = k))
   \<and> fst (add_record record b) = Inr ()
   \<and> data (snd (add_record record b)) = (data b)(name_value (name record) \<mapsto> record)
   \<and> AddressBook_find (name_value (name record)) (snd (add_record record b)) = Some record"
  using book_key_is_name [of b]
  by (auto simp: add_record_def AddressBook_find_def)

theorem book_keys_are_names_witness:
  "AddressBook_find (ascii ''John'')
     (snd (add_record \<lparr>name = Name (ascii ''John''), phones = [Phone (ascii ''5555555555'')]\<rparr>
        (snd (add_record \<lparr>name = Name (ascii ''John''), phones = []\<rparr> AddressBook_init))))
     = Some \<lparr>name = Name (ascii ''John''), phones = [Phone (ascii ''5555555555'')]\<rparr>
   \<and> name_value (name \<lparr>name = Name (ascii ''John''),
        phones = [Phone (ascii ''5555555555'')]\<rparr>) = ascii ''John''"
proof -
  let ?r1 = "\<lparr>name = Name (ascii ''John''), phones = []\<rparr>"
  let ?r2 = "\<lparr>name = Name (ascii ''John''), phones = [Phone (ascii ''5555555555'')]\<rparr>"
  let ?b1 = "snd (add_record ?r1 AddressBook_init)"
  let ?b2 = "snd (add_record ?r2 ?b1)"
  have reach: "book_reachable ?b2"
    by (intro book_reachable.added book_reachable.empty_book)
  from book_keys_are_names [of ?b1 ?r2]
  have found: "AddressBook_find (name_value (name ?r2)) ?b2 = Some ?r2"
    by blast
  then have stored: "data ?b2 (ascii ''John'') = Some ?r2"
    by (simp add: AddressBook_find_def)
  from book_keys_are_names [of ?b2 ?r2] reach stored
  have "name_value (name ?r2) = ascii ''John''"
    by blast
  with found show ?thesis by simp
qed

lemma remove_phone_phones_subset: "set (phones (snd (remove_phone p r))) \<subseteq> set (phones r)"
proof -
  from remove_phone_cases [of p r] consider "remove_phone p r = (Inr (), r)"
    | i where "remove_phone p r
        = (Inr (), r\<lparr>phones := take i (phones r) @ drop (Suc i) (phones r)\<rparr>)"
    by blast
  then show ?thesis
  proof cases
    case 1
    then show ?thesis by simp
  next
    case 2
    then show ?thesis
      using set_take_subset [of i "phones r"] set_drop_subset [of "Suc i" "phones r"]
      by auto
  qed
qed

lemma edit_phone_phones_subset:
  "set (phones (snd (edit_phone old new r)))
     \<subseteq> set (phones r) \<union> (if Phone_is_valid new then {Phone new} else {})"
proof (cases "find_phone old r")
  case None
  then show ?thesis by (simp add: edit_phone_def)
next
  case (Some ph)
  show ?thesis
  proof (cases "Phone_is_valid new")
    case True
    from edit_phone_found [OF Some True] obtain i where
      "edit_phone old new r = (Inr (), r\<lparr>phones := (phones r)[i := Phone new]\<rparr>)"
      by blast
    with True show ?thesis
      using set_update_subset_insert [of "phones r" i "Phone new"] by auto
  next
    case False
    with Some show ?thesis by (simp add: edit_phone_def Phone_init_def)
  qed
qed

lemma add_phone_phones_subset:
  "set (phones (snd (add_phone p r)))
     \<subseteq> set (phones r) \<union> (if Phone_is_valid p then {Phone p} else {})"
  by (simp add: add_phone_def Phone_init_def)

lemma do_call_keeps_valid:
  assumes "\<forall>ph\<in>set (phones r). Phone_is_valid (phone_value ph)"
  shows "\<forall>ph\<in>set (phones (snd (do_call c r))). Phone_is_valid (phone_value ph)"
proof (cases c)
  case (AddPhone p)
  with assms add_phone_phones_subset [of p r] show ?thesis
    by (auto split: if_splits)
next
  case (RemovePhone p)
  with assms remove_phone_phones_subset [of p r] show ?thesis
    by auto
next
  case (EditPhone old new)
  with assms edit_phone_phones_subset [of old new r] show ?thesis
    by (auto split: if_splits)
qed

lemma reachable_phones_valid:
  "record_reachable r \<Longrightarrow> \<forall>ph\<in>set (phones r). Phone_is_valid (phone_value ph)"
proof (induction rule: record_reachable.induct)
  case (constructed n)
  show ?case by (simp add: Record_init_def)
next
  case (called r c)
  from do_call_keeps_valid [OF called.IH] show ?case .
qed

text \<open>
  C9, as stated, fails when the phone validation rule is the format of ten ASCII digits:
  \<open>add_phone\<close> of ten SUPERSCRIPT TWO characters on a fresh record returns normally, and
  the record so reached holds a phone that is not in that format.
\<close>

theorem reachable_phone_not_ascii:
  "record_reachable
     (snd (do_call (AddPhone [178, 178, 178, 178, 178, 178, 178, 178, 178, 178])
        (Record_init (ascii ''John''))))
   \<and> do_call (AddPhone [178, 178, 178, 178, 178, 178, 178, 178, 178, 178])
       (Record_init (ascii ''John''))
     = (Inr (), \<lparr>name = Name (ascii ''John''),
          phones = [Phone [178, 178, 178, 178, 178, 178, 178, 178, 178, 178]]\<rparr>)
   \<and> \<not> spec_phone_format
         (phone_value (Phone [178, 178, 178, 178, 178, 178, 178, 178, 178, 178]))"
proof (intro conjI)
  show "record_reachable
     (snd (do_call (AddPhone [178, 178, 178, 178, 178, 178, 178, 178, 178, 178])
        (Record_init (ascii ''John''))))"
    by (intro record_reachable.called record_reachable.constructed)
next
  show "do_call (AddPhone [178, 178, 178, 178, 178, 178, 178, 178, 178, 178])
       (Record_init (ascii ''John''))
     = (Inr (), \<lparr>name = Name (ascii ''John''),
          phones = [Phone [178, 178, 178, 178, 178, 178, 178, 178, 178, 178]]\<rparr>)"
    by (simp add: Record_init_def add_phone_def Phone_init_def Phone_is_valid_def isdigit_def
        isdigit_cp_def digit_ranges_def)
next
  show "\<not> spec_phone_format
      (phone_value (Phone [178, 178, 178, 178, 178, 178, 178, 178, 178, 178]))"
    by (simp add: spec_phone_format_def ascii_digit_def)
qed

text \<open>
  C9, amended: every phone of a record built through the public interface (construction,
  then any sequence of \<open>add_phone\<close>, \<open>remove_phone\<close> and \<open>edit_phone\<close> calls, raising or
  not) passes the validation that \<open>Phone\<close> runs, \<open>Phone_is_valid\<close>: length 10 and only
  digit characters in the sense of \<open>str.isdigit\<close>, ASCII or not. Each of the three calls
  preserves this property of the phone list.
\<close>

theorem record_phones_valid:
  "(record_reachable r \<longrightarrow> (\<forall>ph\<in>set (phones r). Phone_is_valid (phone_value ph)))
   \<and> ((\<forall>ph\<in>set (phones r). Phone_is_valid (phone_value ph)) \<longrightarrow>
        (\<forall>ph\<in>set (phones (snd (do_call c r))). Phone_is_valid (phone_value ph)))"
  using reachable_phones_valid [of r] do_call_keeps_valid [of r c] by blast

theorem record_phones_valid_witness:
  "list_all (\<lambda>ph. Phone_is_valid (phone_value ph))
     (phones (snd (do_call (EditPhone (ascii ''1234567890'') (ascii ''1112223333''))
        (snd (do_call (AddPhone (ascii ''123''))
           (snd (do_call (AddPhone (ascii ''1234567890''))
              (Record_init (ascii ''John'')))))))))
   \<and> phones (snd (do_call (EditPhone (ascii ''1234567890'') (ascii ''1112223333''))
        (snd (do_call (AddPhone (ascii ''123''))
           (snd (do_call (AddPhone (ascii ''1234567890''))
              (Record_init (ascii ''John''))))))))
     = [Phone (ascii ''1112223333'')]"
proof -
  let ?r = "snd (do_call (EditPhone (ascii ''1234567890'') (ascii ''1112223333''))
    (snd (do_call (AddPhone (ascii ''123''))
       (snd (do_call (AddPhone (ascii ''1234567890'')) (Record_init (ascii ''John'')))))))"
  have reach: "record_reachable ?r"
    by (intro record_reachable.called record_reachable.constructed)
  from record_phones_valid [of ?r] reach
  have "\<forall>ph\<in>set (phones ?r). Phone_is_valid (phone_value ph)"
    by blast
  then have "list_all (\<lambda>ph. Phone_is_valid (phone_value ph)) (phones ?r)"
    by (simp add: list_all_iff)
  moreover have "phones ?r = [Phone (ascii ''1112223333'')]"
    by (simp add: Record_init_def add_phone_def edit_phone_def find_phone_def Phone_init_def
        Phone_is_valid_def isdigit_def isdigit_cp_def digit_ranges_def list_setitem_def
        ascii_def)
  ultimately show ?thesis by blast
qed

section \<open>Rendering a record\<close>

lemma join_Cons: "join sep (x # xs) = x @ concat (map (\<lambda>y. sep @ y) xs)"
  by (induction xs arbitrary: x) simp_all

lemma set_join: "set (join sep xs) \<subseteq> set sep \<union> (\<Union>x\<in>set xs. set x)"
proof (cases xs)
  case Nil
  then show ?thesis by simp
next
  case (Cons x ys)
  then show ?thesis by (auto simp: join_Cons)
qed

lemma literals_no_linebreak:
  "\<forall>c\<in>set (ascii ''Contact name: ''). \<not> linebreak c"
  "\<forall>c\<in>set (ascii '', phones: ''). \<not> linebreak c"
  "\<forall>c\<in>set (ascii ''; ''). \<not> linebreak c"
  "\<forall>c\<in>set no_phones_msg. \<not> linebreak c"
  by (simp_all add: ascii_def linebreak_def no_phones_msg_def)

text \<open>
  C8, as stated, fails for "a single line" on every record: a name is stored unchecked,
  and the record constructed with the name \<open>A\<close>, LINE FEED, \<open>B\<close> renders as a text with a
  line break in it, that is, as two lines.
\<close>

theorem Record_str_two_lines:
  "Record_str (Record_init [65, 10, 66])
     = ascii ''Contact name: A'' @ [10] @ ascii ''B, phones: '' @ no_phones_msg
   \<and> linebreak 10
   \<and> list_ex linebreak (Record_str (Record_init [65, 10, 66]))"
  by (simp add: Record_str_def Record_init_def ascii_def linebreak_def)

text \<open>
  C8, amended: the rendering of a record is the text \<open>Contact name: \<close>, the contact's name,
  the text \<open>, phones: \<close> and then the phones: for an empty phone list the fixed, non-empty
  phrase \<open>no_phones_msg\<close>, otherwise the phone values in list order with \<open>; \<close> between
  neighbours. The rendering adds no line break: when neither the name nor a phone value
  contains one, the result is a single line.
\<close>

theorem Record_str_shape:
  "(phones r = [] \<longrightarrow>
      Record_str r
        = ascii ''Contact name: '' @ name_value (name r) @ ascii '', phones: '' @ no_phones_msg)
   \<and> no_phones_msg \<noteq> []
   \<and> (\<forall>p ps. phones r = p # ps \<longrightarrow>
        Record_str r
          = ascii ''Contact name: '' @ name_value (name r) @ ascii '', phones: ''
            @ phone_value p @ concat (map (\<lambda>q. ascii ''; '' @ phone_value q) ps))
   \<and> ((\<forall>c\<in>set (name_value (name r)). \<not> linebreak c)
        \<and> (\<forall>ph\<in>set (phones r). \<forall>c\<in>set (phone_value ph). \<not> linebreak c)
        \<longrightarrow> (\<forall>c\<in>set (Record_str r). \<not> linebreak c))"
proof (intro conjI impI allI)
  assume "phones r = []"
  then show "Record_str r
      = ascii ''Contact name: '' @ name_value (name r) @ ascii '', phones: '' @ no_phones_msg"
    by (simp add: Record_str_def)
next
  show "no_phones_msg \<noteq> []"
    by (simp add: no_phones_msg_def)
next
  fix p ps
  assume "phones r = p # ps"
  then show "Record_str r
      = ascii ''Contact name: '' @ name_value (name r) @ ascii '', phones: ''
        @ phone_value p @ concat (map (\<lambda>q. ascii ''; '' @ phone_value q) ps)"
    by (simp add: Record_str_def join_Cons comp_def)
next
  assume clean: "(\<forall>c\<in>set (name_value (name r)). \<not> linebreak c)
    \<and> (\<forall>ph\<in>set (phones r). \<forall>c\<in>set (phone_value ph). \<not> linebreak c)"
  let ?joined = "join (ascii ''; '') (map phone_value (phones r))"
  have "\<forall>c\<in>set ?joined. \<not> linebreak c"
    using set_join [of "ascii ''; ''" "map phone_value (phones r)"] clean
      literals_no_linebreak(3)
    by auto
  with clean literals_no_linebreak show "\<forall>c\<in>set (Record_str r). \<not> linebreak c"
    by (auto simp: Record_str_def Let_def)
qed

theorem Record_str_shape_witness:
  "Record_str \<lparr>name = Name (ascii ''John''),
       phones = [Phone (ascii ''1112223333''), Phone (ascii ''5555555555'')]\<rparr>
     = ascii ''Contact name: John, phones: 1112223333; 5555555555''
   \<and> Record_str \<lparr>name = Name (ascii ''John''), phones = []\<rparr>
     = ascii ''Contact name: John, phones: '' @ no_phones_msg
   \<and> list_all (\<lambda>c. \<not> linebreak c)
       (Record_str \<lparr>name = Name (ascii ''John''),
          phones = [Phone (ascii ''1112223333''), Phone (ascii ''5555555555'')]\<rparr>)"
proof -
  let ?r = "\<lparr>name = Name (ascii ''John''),
    phones = [Phone (ascii ''1112223333''), Phone (ascii ''5555555555'')]\<rparr>"
  let ?e = "\<lparr>name = Name (ascii ''John''), phones = []\<rparr>"
  have "phones ?r = Phone (ascii ''1112223333'') # [Phone (ascii ''5555555555'')]"
    by simp
  with Record_str_shape [of ?r] have "Record_str ?r
      = ascii ''Contact name: '' @ name_value (name ?r) @ ascii '', phones: ''
        @ phone_value (Phone (ascii ''1112223333''))
        @ concat (map (\<lambda>q. ascii ''; '' @ phone_value q) [Phone (ascii ''5555555555'')])"
    by blast
  then have first: "Record_str ?r = ascii ''Contact name: John, phones: 1112223333; 5555555555''"
    by (simp add: ascii_def)
  have "phones ?e = []"
    by simp
  with Record_str_shape [of ?e] have "Record_str ?e
      = ascii ''Contact name: '' @ name_value (name ?e) @ ascii '', phones: '' @ no_phones_msg"
    by blast
  then have second: "Record_str ?e = ascii ''Contact name: John, phones: '' @ no_phones_msg"
    by (simp add: ascii_def)
  have "(\<forall>c\<in>set (name_value (name ?r)). \<not> linebreak c)
    \<and> (\<forall>ph\<in>set (phones ?r). \<forall>c\<in>set (phone_value ph). \<not> linebreak c)"
    by (simp add: ascii_def linebreak_def)
  with Record_str_shape [of ?r] have "\<forall>c\<in>set (Record_str ?r). \<not> linebreak c"
    by blast
  then have third: "list_all (\<lambda>c. \<not> linebreak c) (Record_str ?r)"
    by (simp add: list_all_iff)
  from first second third show ?thesis by blast
qed

end
